theory Spec2Isabelle
  imports Main
begin

section \<open>Data model (types.ts)\<close>

text \<open>
  \<^verbatim>\<open>export type Role = 'user' | 'model';\<close>
\<close>

datatype Role = User | Model

text \<open>
  \<^verbatim>\<open>interface GroundingSource { uri: string; title: string; }\<close>
\<close>

record GroundingSource =
  uri :: string
  title :: string

text \<open>
  \<^verbatim>\<open>interface ChatPart { text?: string; inlineData?: { mimeType: string; data: string; }; }\<close>
  An optional field is an \<open>option\<close>: \<open>None\<close> is the absent (undefined) field.
\<close>

record InlineData =
  mimeType :: string
  data :: string

record ChatPart =
  "text" :: "string option"
  inlineData :: "InlineData option"

text \<open>
  A request turn \<^verbatim>\<open>{ role, parts }\<close>; a \<^verbatim>\<open>ChatMessage\<close> is a turn with the optional
  \<^verbatim>\<open>groundingSources\<close> field.
\<close>

record Content =
  role :: Role
  parts :: "ChatPart list"

record ChatMessage = Content +
  groundingSources :: "GroundingSource list option"

text \<open>The optional third argument \<^verbatim>\<open>image?: { base64: string; mimeType: string }\<close>.\<close>

record Image =
  base64 :: string
  imageMimeType :: string

section \<open>The provider's response and what a call can throw\<close>

text \<open>
  The part of \<^verbatim>\<open>GenerateContentResponse\<close> the adapter reads: \<^verbatim>\<open>response.text\<close> and
  \<^verbatim>\<open>response.candidates?.[0]?.groundingMetadata?.groundingChunks\<close>, whose chunks are
  read as \<^verbatim>\<open>chunk.web\<close>, \<^verbatim>\<open>chunk.web.uri\<close> and \<^verbatim>\<open>chunk.web.title\<close>.
\<close>

record Web =
  webUri :: "string option"
  webTitle :: "string option"

record GroundingChunk =
  web :: "Web option"

record GroundingMetadata =
  groundingChunks :: "GroundingChunk list option"

record Candidate =
  groundingMetadata :: "GroundingMetadata option"

record GenerateContentResponse =
  responseText :: "string option"
  candidates :: "Candidate list option"

text \<open>
  A thrown value is an instance of \<^verbatim>\<open>Error\<close>, carrying its \<^verbatim>\<open>message\<close>, or anything
  else (a string, a plain object), of which the \<^verbatim>\<open>catch\<close> block reads nothing.
\<close>

datatype thrown = JsError string | NotAnError

text \<open>
  What \<^verbatim>\<open>sendMessageToGemini\<close> returns: \<^verbatim>\<open>{ text, sources }\<close> or \<^verbatim>\<open>{ error }\<close>.
\<close>

datatype ExchangeResult =
    Success "string option" "GroundingSource list"
  | Failure string

section \<open>JavaScript helpers\<close>

text \<open>
  Truthiness of an optional string (\<^verbatim>\<open>if (part.text)\<close>, \<^verbatim>\<open>chunk.web.uri && ...\<close>):
  defined and not the empty string.
\<close>

definition truthy :: "string option \<Rightarrow> bool" where
  "truthy s = (case s of None \<Rightarrow> False | Some t \<Rightarrow> t \<noteq> [])"

text \<open>
  A JavaScript \<^verbatim>\<open>Map\<close> keeps its entries in insertion order of the keys, so it is an
  association list. \<^verbatim>\<open>set\<close> on a key that is present replaces the value where the key
  stands; on a new key it appends the entry.
\<close>

fun Map_set :: "('k \<times> 'v) list \<Rightarrow> 'k \<Rightarrow> 'v \<Rightarrow> ('k \<times> 'v) list" where
  "Map_set [] k v = [(k, v)]"
| "Map_set ((k', v') # m) k v =
     (if k' = k then (k', v) # m else (k', v') # Map_set m k v)"

text \<open>\<^verbatim>\<open>new Map(iterable)\<close> sets the entries of the iterable one after the other.\<close>

fun Map_add_entries :: "('k \<times> 'v) list \<Rightarrow> ('k \<times> 'v) list \<Rightarrow> ('k \<times> 'v) list" where
  "Map_add_entries m [] = m"
| "Map_add_entries m ((k, v) # es) = Map_add_entries (Map_set m k v) es"

definition new_Map :: "('k \<times> 'v) list \<Rightarrow> ('k \<times> 'v) list" where
  "new_Map es = Map_add_entries [] es"

definition Map_values :: "('k \<times> 'v) list \<Rightarrow> 'v list" where
  "Map_values m = map snd m"

text \<open>
  \<^verbatim>\<open>String.prototype.trim\<close>: white space and line terminators are removed from both
  ends. The characters of \<open>string\<close> are bytes, so the white space is that of the
  code units up to U+00FF: TAB, LF, VT, FF, CR, SP and NBSP.
\<close>

definition isWhiteSpace :: "char \<Rightarrow> bool" where
  "isWhiteSpace c =
     (c \<in> set [CHR 0x09, CHR 0x0A, CHR 0x0B, CHR 0x0C, CHR 0x0D, CHR 0x20, CHR 0xA0])"

definition trim :: "string \<Rightarrow> string" where
  "trim s = rev (dropWhile isWhiteSpace (rev (dropWhile isWhiteSpace s)))"

section \<open>The exchange adapter (services/geminiService.ts)\<close>

definition fileToGenerativePart :: "string \<Rightarrow> string \<Rightarrow> ChatPart" where
  "fileToGenerativePart b mt =
     \<lparr>text = None, inlineData = Some \<lparr>mimeType = mt, data = b\<rparr>\<rparr>"

text \<open>
  \<^verbatim>\<open>const userParts = [{ text: message }];
  if (image) { userParts.push(fileToGenerativePart(image.base64, image.mimeType)); }\<close>
\<close>

definition userParts :: "string \<Rightarrow> Image option \<Rightarrow> ChatPart list" where
  "userParts message img =
     [\<lparr>text = Some message, inlineData = None\<rparr>] @
     (case img of
        None \<Rightarrow> []
      | Some i \<Rightarrow> [fileToGenerativePart (base64 i) (imageMimeType i)])"

text \<open>
  The callback of \<^verbatim>\<open>msg.parts.map\<close>:
  \<^verbatim>\<open>if (part.text) return { text: part.text };
  if (part.inlineData) return { inlineData: part.inlineData };
  return {};\<close>
\<close>

definition mapPart :: "ChatPart \<Rightarrow> ChatPart" where
  "mapPart part =
     (if truthy (text part) then \<lparr>text = text part, inlineData = None\<rparr>
      else if inlineData part \<noteq> None then \<lparr>text = None, inlineData = inlineData part\<rparr>
      else \<lparr>text = None, inlineData = None\<rparr>)"

definition contents :: "ChatMessage list \<Rightarrow> string \<Rightarrow> Image option \<Rightarrow> Content list" where
  "contents history message img =
     map (\<lambda>msg. \<lparr>role = role msg, parts = map mapPart (parts msg)\<rparr>) history @
     [\<lparr>role = User, parts = userParts message img\<rparr>]"

text \<open>\<^verbatim>\<open>response.candidates?.[0]?.groundingMetadata?.groundingChunks\<close>\<close>

definition groundingChunksOf :: "GenerateContentResponse \<Rightarrow> GroundingChunk list option" where
  "groundingChunksOf response =
     (case candidates response of
        None \<Rightarrow> None
      | Some cs \<Rightarrow>
          (case cs of
             [] \<Rightarrow> None
           | c # _ \<Rightarrow>
               (case groundingMetadata c of
                  None \<Rightarrow> None
                | Some g \<Rightarrow> groundingChunks g)))"

text \<open>The filter predicate \<^verbatim>\<open>chunk.web && chunk.web.uri && chunk.web.title\<close>.\<close>

definition chunkHasWeb :: "GroundingChunk \<Rightarrow> bool" where
  "chunkHasWeb chunk =
     (case web chunk of
        None \<Rightarrow> False
      | Some w \<Rightarrow> truthy (webUri w) \<and> truthy (webTitle w))"

text \<open>
  The mapping \<^verbatim>\<open>chunk => ({ uri: chunk.web.uri, title: chunk.web.title })\<close>. It runs
  on chunks that passed the filter only; on the others JavaScript would read
  \<^verbatim>\<open>undefined\<close>, which the model does not reach and writes as the empty string.
\<close>

definition chunkToSource :: "GroundingChunk \<Rightarrow> GroundingSource" where
  "chunkToSource chunk =
     (case web chunk of
        None \<Rightarrow> \<lparr>uri = [], title = []\<rparr>
      | Some w \<Rightarrow>
          \<lparr>uri = (case webUri w of None \<Rightarrow> [] | Some u \<Rightarrow> u),
           title = (case webTitle w of None \<Rightarrow> [] | Some t \<Rightarrow> t)\<rparr>)"

definition groundingSourcesOf :: "GroundingChunk list option \<Rightarrow> GroundingSource list" where
  "groundingSourcesOf chunks =
     (case chunks of
        None \<Rightarrow> []
      | Some cs \<Rightarrow> map chunkToSource (filter chunkHasWeb cs))"

text \<open>
  \<^verbatim>\<open>Array.from(new Map(groundingSources.map(item => [item.uri, item])).values())\<close>
\<close>

definition uniqueSources :: "GroundingSource list \<Rightarrow> GroundingSource list" where
  "uniqueSources gs = Map_values (new_Map (map (\<lambda>item. (uri item, item)) gs))"

text \<open>
  The \<^verbatim>\<open>try\<close> block. The provider call \<^verbatim>\<open>ai.models.generateContent\<close> is a parameter:
  given the assembled turns it throws (\<open>Inl\<close>) or yields a response (\<open>Inr\<close>).
\<close>

definition tryBlock ::
  "(Content list \<Rightarrow> thrown + GenerateContentResponse) \<Rightarrow>
   ChatMessage list \<Rightarrow> string \<Rightarrow> Image option \<Rightarrow> thrown + ExchangeResult" where
  "tryBlock generateContent history message img =
     (case generateContent (contents history message img) of
        Inl e \<Rightarrow> Inl e
      | Inr response \<Rightarrow>
          Inr (Success (responseText response)
                 (uniqueSources (groundingSourcesOf (groundingChunksOf response)))))"

text \<open>
  The \<^verbatim>\<open>catch\<close> block:
  \<^verbatim>\<open>if (error instanceof Error) { return { error: error.message }; }
  return { error: "An unknown error occurred." };\<close>
\<close>

definition catchBlock :: "thrown \<Rightarrow> ExchangeResult" where
  "catchBlock e =
     (case e of
        JsError m \<Rightarrow> Failure m
      | NotAnError \<Rightarrow> Failure ''An unknown error occurred.'')"

text \<open>
  The outcome of the async function: \<open>Inl\<close> is a rejected promise (an exception
  that reaches the caller), \<open>Inr\<close> the value it resolves to.
\<close>

definition sendMessageToGemini ::
  "(Content list \<Rightarrow> thrown + GenerateContentResponse) \<Rightarrow>
   ChatMessage list \<Rightarrow> string \<Rightarrow> Image option \<Rightarrow> thrown + ExchangeResult" where
  "sendMessageToGemini generateContent history message img =
     (case tryBlock generateContent history message img of
        Inl e \<Rightarrow> Inr (catchBlock e)
      | Inr r \<Rightarrow> Inr r)"

section \<open>The conversation store (components/ChatInterface.tsx)\<close>

text \<open>The \<^verbatim>\<open>useState\<close> cells of the \<^verbatim>\<open>ChatInterface\<close> component.\<close>

record Store =
  messages :: "ChatMessage list"
  input :: string
  isLoading :: bool
  error :: "string option"
  isCameraOpen :: bool
  imageToSend :: "Image option"

definition initialStore :: Store where
  "initialStore =
     \<lparr>messages = [], input = [], isLoading = False, error = None,
      isCameraOpen = False, imageToSend = None\<rparr>"

text \<open>The arguments of one call of \<^verbatim>\<open>sendMessageToGemini\<close>.\<close>

record Call =
  callHistory :: "ChatMessage list"
  callMessage :: string
  callImage :: "Image option"

text \<open>
  \<^verbatim>\<open>handleSendMessage\<close> up to its \<^verbatim>\<open>await\<close>: the new store, and the call it issues
  (\<open>None\<close> when it returns at the guard).
\<close>

definition handleSendMessage :: "Store \<Rightarrow> Store \<times> Call option" where
  "handleSendMessage st =
     (let trimmedInput = trim (input st) in
      if trimmedInput = [] \<and> imageToSend st = None then (st, None)
      else
        let userMessage =
              \<lparr>role = User,
               parts =
                 (if trimmedInput \<noteq> [] then [\<lparr>text = Some trimmedInput, inlineData = None\<rparr>]
                  else []) @
                 (case imageToSend st of
                    None \<Rightarrow> []
                  | Some i \<Rightarrow>
                      [\<lparr>text = None,
                        inlineData = Some \<lparr>mimeType = imageMimeType i, data = base64 i\<rparr>\<rparr>]),
               groundingSources = None\<rparr>;
            currentHistory = messages st
        in (st\<lparr>error := None, isLoading := True,
                messages := messages st @ [userMessage],
                input := [], imageToSend := None\<rparr>,
            Some \<lparr>callHistory = currentHistory, callMessage = trimmedInput,
                  callImage = imageToSend st\<rparr>))"

text \<open>The fields read from the result; a field the object lacks is \<open>None\<close>.\<close>

definition resultError :: "ExchangeResult \<Rightarrow> string option" where
  "resultError r = (case r of Failure e \<Rightarrow> Some e | Success t srcs \<Rightarrow> None)"

definition resultText :: "ExchangeResult \<Rightarrow> string option" where
  "resultText r = (case r of Failure e \<Rightarrow> None | Success t srcs \<Rightarrow> t)"

definition resultSources :: "ExchangeResult \<Rightarrow> GroundingSource list option" where
  "resultSources r = (case r of Failure e \<Rightarrow> None | Success t srcs \<Rightarrow> Some srcs)"

text \<open>
  \<^verbatim>\<open>handleSendMessage\<close> after the \<^verbatim>\<open>await\<close>, on the store as it is then (the updates
  are functional: \<^verbatim>\<open>setMessages(prev => [...prev, m])\<close>).
\<close>

definition handleSendMessageResumed :: "ExchangeResult \<Rightarrow> Store \<Rightarrow> Store" where
  "handleSendMessageResumed result st =
     (if truthy (resultError result) then
        (let e = (case resultError result of None \<Rightarrow> [] | Some m \<Rightarrow> m);
             errorMessage =
               \<lparr>role = Model,
                parts = [\<lparr>text = Some (''Sorry, something went wrong: '' @ e),
                          inlineData = None\<rparr>],
                groundingSources = None\<rparr>
         in st\<lparr>error := Some e, messages := messages st @ [errorMessage],
                isLoading := False\<rparr>)
      else
        (let modelMessage =
               \<lparr>role = Model,
                parts = [\<lparr>text = resultText result, inlineData = None\<rparr>],
                groundingSources = resultSources result\<rparr>
         in st\<lparr>messages := messages st @ [modelMessage], isLoading := False\<rparr>))"

definition handlePhotoCapture :: "Image \<Rightarrow> Store \<Rightarrow> Store" where
  "handlePhotoCapture imageData st = st\<lparr>imageToSend := Some imageData, isCameraOpen := False\<rparr>"

text \<open>The \<^verbatim>\<open>onClose\<close> given to the capture component: \<^verbatim>\<open>() => setIsCameraOpen(false)\<close>.\<close>

definition onClose :: "Store \<Rightarrow> Store" where
  "onClose st = st\<lparr>isCameraOpen := False\<rparr>"

subsection \<open>The store under the events of its controls\<close>

text \<open>
  The application is the store and the exchanges in flight (calls issued whose promise
  has not settled). The controls are those of the component's JSX, each with its
  \<^verbatim>\<open>disabled\<close> attribute: a disabled control delivers no event.
  \<^item> the textarea, \<^verbatim>\<open>disabled={isLoading}\<close>: \<^verbatim>\<open>onChange\<close> sets the input, Enter without
    Shift calls \<^verbatim>\<open>handleSendMessage\<close>;
  \<^item> the send button, \<^verbatim>\<open>disabled={(!input.trim() && !imageToSend) || isLoading}\<close>:
    \<^verbatim>\<open>onClick\<close> calls \<^verbatim>\<open>handleSendMessage\<close>;
  \<^item> the camera button, the preview's remove button, and the capture component's
    \<^verbatim>\<open>onCapture\<close> and \<^verbatim>\<open>onClose\<close> (the component is rendered while \<^verbatim>\<open>isCameraOpen\<close>);
  \<^item> the settling of the oldest exchange in flight.
\<close>

datatype Event =
    Change string
  | EnterKey
  | SendClick
  | CameraClick
  | RemoveImageClick
  | PhotoCaptured Image
  | CameraClosed
  | ExchangeSettled

record App =
  store :: Store
  inFlight :: "Call list"

definition initialApp :: App where
  "initialApp = \<lparr>store = initialStore, inFlight = []\<rparr>"

definition submit :: "App \<Rightarrow> App" where
  "submit app =
     (case handleSendMessage (store app) of
        (st, call) \<Rightarrow>
          \<lparr>store = st,
           inFlight = inFlight app @ (case call of None \<Rightarrow> [] | Some c \<Rightarrow> [c])\<rparr>)"

definition sendDisabled :: "Store \<Rightarrow> bool" where
  "sendDisabled st = ((trim (input st) = [] \<and> imageToSend st = None) \<or> isLoading st)"

definition uiStep ::
  "(Content list \<Rightarrow> thrown + GenerateContentResponse) \<Rightarrow> App \<Rightarrow> Event \<Rightarrow> App" where
  "uiStep generateContent app ev =
     (case ev of
        Change v \<Rightarrow>
          if isLoading (store app) then app else app\<lparr>store := (store app)\<lparr>input := v\<rparr>\<rparr>
      | EnterKey \<Rightarrow> if isLoading (store app) then app else submit app
      | SendClick \<Rightarrow> if sendDisabled (store app) then app else submit app
      | CameraClick \<Rightarrow> app\<lparr>store := (store app)\<lparr>isCameraOpen := True\<rparr>\<rparr>
      | RemoveImageClick \<Rightarrow> app\<lparr>store := (store app)\<lparr>imageToSend := None\<rparr>\<rparr>
      | PhotoCaptured i \<Rightarrow>
          if isCameraOpen (store app) then app\<lparr>store := handlePhotoCapture i (store app)\<rparr>
          else app
      | CameraClosed \<Rightarrow>
          if isCameraOpen (store app) then app\<lparr>store := onClose (store app)\<rparr> else app
      | ExchangeSettled \<Rightarrow>
          (case inFlight app of
             [] \<Rightarrow> app
           | c # rest \<Rightarrow>
               (case sendMessageToGemini generateContent
                       (callHistory c) (callMessage c) (callImage c) of
                  Inl e \<Rightarrow> app\<lparr>inFlight := rest\<rparr>
                | Inr r \<Rightarrow>
                    \<lparr>store = handleSendMessageResumed r (store app), inFlight = rest\<rparr>)))"

text \<open>The states of the application that the events can lead to.\<close>

inductive reachable ::
  "(Content list \<Rightarrow> thrown + GenerateContentResponse) \<Rightarrow> App \<Rightarrow> bool"
  for generateContent where
    reachable_initial: "reachable generateContent initialApp"
  | reachable_step:
      "reachable generateContent app \<Longrightarrow> reachable generateContent (uiStep generateContent app ev)"

section \<open>The capture component (components/CameraCapture.tsx)\<close>

text \<open>
  A \<^verbatim>\<open>MediaStream\<close> is named by a number. The component holds \<^verbatim>\<open>stream\<close> and
  \<^verbatim>\<open>error\<close>; the capture device holds the streams whose tracks have not been stopped.
\<close>

record CameraCapture =
  stream :: "nat option"
  cameraError :: "string option"

record Capture =
  chat :: Store
  component :: CameraCapture
  liveStreams :: "nat list"

text \<open>
  \<^verbatim>\<open>startCamera\<close>; the outcome of \<^verbatim>\<open>getUserMedia\<close> is a parameter (\<open>Inl\<close>: it throws,
  \<open>Inr\<close>: the stream it acquired).
\<close>

definition startCamera :: "thrown + nat \<Rightarrow> Capture \<Rightarrow> Capture" where
  "startCamera userMedia w =
     (case userMedia of
        Inr mediaStream \<Rightarrow>
          w\<lparr>component := \<lparr>stream = Some mediaStream, cameraError = None\<rparr>,
            liveStreams := liveStreams w @ [mediaStream]\<rparr>
      | Inl err \<Rightarrow>
          w\<lparr>component :=
              \<lparr>stream = None,
               cameraError =
                 Some ''Could not access the camera. Please ensure permissions are granted.''\<rparr>\<rparr>)"

text \<open>
  \<^verbatim>\<open>if (stream) { stream.getTracks().forEach(track => track.stop()); setStream(null); }\<close>
\<close>

definition stopCamera :: "Capture \<Rightarrow> Capture" where
  "stopCamera w =
     (case stream (component w) of
        None \<Rightarrow> w
      | Some s \<Rightarrow>
          w\<lparr>liveStreams := removeAll s (liveStreams w),
            component := (component w)\<lparr>stream := None\<rparr>\<rparr>)"

text \<open>
  \<^verbatim>\<open>capturePhoto\<close> in the mounted component (both refs are set), with the 2d
  context's availability and the encoded frame as parameters:
  \<^verbatim>\<open>onCapture({ base64, mimeType: 'image/jpeg' }); stopCamera(); onClose();\<close>
\<close>

definition capturePhoto :: "bool \<Rightarrow> string \<Rightarrow> Capture \<Rightarrow> Capture" where
  "capturePhoto hasContext b w =
     (if hasContext then
        (let w1 = w\<lparr>chat := handlePhotoCapture \<lparr>base64 = b, imageMimeType = ''image/jpeg''\<rparr> (chat w)\<rparr>;
             w2 = stopCamera w1
         in w2\<lparr>chat := onClose (chat w2)\<rparr>)
      else w)"

text \<open>The back button of the capture UI: \<^verbatim>\<open>onClick={onClose}\<close>.\<close>

definition backButton :: "Capture \<Rightarrow> Capture" where
  "backButton w = w\<lparr>chat := onClose (chat w)\<rparr>"

text \<open>The capture UI as the camera button of the chat opens it.\<close>

definition openedCapture :: Capture where
  "openedCapture =
     \<lparr>chat = initialStore\<lparr>isCameraOpen := True\<rparr>,
      component = \<lparr>stream = None, cameraError = None\<rparr>,
      liveStreams = []\<rparr>"

section \<open>Notions of the specification\<close>

text \<open>
  At most one exchange is in flight, and the store is loading exactly while one is.
\<close>

definition oneExchange :: "App \<Rightarrow> bool" where
  "oneExchange app =
     (length (inFlight app) \<le> 1 \<and> (isLoading (store app) \<longleftrightarrow> inFlight app \<noteq> []))"

text \<open>The keys of a list in the order of their first occurrence.\<close>

fun firstSeen :: "'a list \<Rightarrow> 'a list" where
  "firstSeen [] = []"
| "firstSeen (x # xs) = x # filter (\<lambda>y. y \<noteq> x) (firstSeen xs)"

text \<open>
  Deduplication as the specification words it: for each distinct uri the first-seen
  entry is kept, in first-seen order.
\<close>

fun dedupKeepFirst :: "GroundingSource list \<Rightarrow> GroundingSource list" where
  "dedupKeepFirst [] = []"
| "dedupKeepFirst (s # ss) = s # filter (\<lambda>t. uri t \<noteq> uri s) (dedupKeepFirst ss)"

text \<open>A citation lacks a uri or a title: the chunk has no \<^verbatim>\<open>web\<close>, or one of the two fields is absent.\<close>

definition lacksUriOrTitle :: "GroundingChunk \<Rightarrow> bool" where
  "lacksUriOrTitle chunk =
     (case web chunk of
        None \<Rightarrow> True
      | Some w \<Rightarrow> webUri w = None \<or> webTitle w = None)"

section \<open>The insertion-ordered map\<close>

lemma Map_set_keys:
  "map fst (Map_set m k v) = (if k \<in> fst ` set m then map fst m else map fst m @ [k])"
  by (induction m) force+

lemma Map_set_key_set: "fst ` set (Map_set m k v) = insert k (fst ` set m)"
proof -
  have "set (map fst (Map_set m k v)) = insert k (set (map fst m))"
    unfolding Map_set_keys by auto
  then show ?thesis by simp
qed

lemma Map_set_fresh: "k \<notin> fst ` set m \<Longrightarrow> Map_set m k v = m @ [(k, v)]"
  by (induction m) auto

lemma Map_set_map_of: "map_of (Map_set m k v) = (map_of m)(k \<mapsto> v)"
  by (induction m) (auto simp: fun_eq_iff)

lemma Map_add_entries_keys:
  "map fst (Map_add_entries m es) =
     map fst m @ filter (\<lambda>k. k \<notin> fst ` set m) (firstSeen (map fst es))"
proof (induction es arbitrary: m)
  case Nil
  show ?case by simp
next
  case (Cons e es)
  obtain k v where e: "e = (k, v)" by (cases e)
  show ?case
  proof (cases "k \<in> fst ` set m")
    case True
    have "filter (\<lambda>x. x \<notin> fst ` set m) (filter (\<lambda>y. y \<noteq> k) (firstSeen (map fst es)))
          = filter (\<lambda>x. x \<notin> fst ` set m) (firstSeen (map fst es))"
      using True by (auto intro: filter_cong)
    with True show ?thesis
      by (simp add: e Cons.IH Map_set_keys Map_set_key_set insert_absorb)
  next
    case False
    have "filter (\<lambda>x. x \<notin> fst ` set m) (filter (\<lambda>y. y \<noteq> k) (firstSeen (map fst es)))
          = filter (\<lambda>x. x \<noteq> k \<and> x \<notin> fst ` set m) (firstSeen (map fst es))"
      by (auto intro: filter_cong)
    with False show ?thesis
      by (simp add: e Cons.IH Map_set_keys Map_set_key_set)
  qed
qed

lemma firstSeen_set: "set (firstSeen xs) = set xs"
  by (induction xs) auto

lemma firstSeen_distinct: "distinct (firstSeen xs)"
  by (induction xs) (auto simp: firstSeen_set)

lemma firstSeen_id: "distinct xs \<Longrightarrow> firstSeen xs = xs"
  by (induction xs) (auto simp: filter_id_conv)

lemma new_Map_keys: "map fst (new_Map es) = firstSeen (map fst es)"
  by (simp add: new_Map_def Map_add_entries_keys)

lemma Map_add_entries_map_of:
  "map_of (Map_add_entries m es) = map_of m ++ map_of (rev es)"
proof (induction es arbitrary: m)
  case Nil
  show ?case by simp
next
  case (Cons e es)
  obtain k v where e: "e = (k, v)" by (cases e)
  show ?case
    by (simp add: e Cons.IH Map_set_map_of map_add_upd_left fun_eq_iff map_add_def split: option.splits)
qed

lemma Map_add_entries_distinct:
  "distinct (map fst (m @ es)) \<Longrightarrow> Map_add_entries m es = m @ es"
proof (induction es arbitrary: m)
  case Nil
  show ?case by simp
next
  case (Cons e es)
  obtain k v where e: "e = (k, v)" by (cases e)
  from Cons.prems have fresh: "k \<notin> fst ` set m" by (auto simp: e)
  from Cons.prems have "distinct (map fst ((m @ [(k, v)]) @ es))" by (auto simp: e)
  from Cons.IH[OF this] show ?case
    by (simp add: e Map_set_fresh[OF fresh])
qed

lemma map_of_keyed: "map_of (map (\<lambda>i. (f i, i)) xs) k = find (\<lambda>t. f t = k) xs"
  by (induction xs) auto

lemma Map_set_entries: "set (Map_set m k v) \<subseteq> insert (k, v) (set m)"
  by (induction m) (auto split: if_splits)

lemma Map_add_entries_entries: "set (Map_add_entries m es) \<subseteq> set m \<union> set es"
proof (induction es arbitrary: m)
  case Nil
  show ?case by simp
next
  case (Cons e es)
  obtain k v where e: "e = (k, v)" by (cases e)
  from Cons.IH[of "Map_set m k v"] Map_set_entries[of m k v] show ?case
    by (auto simp: e)
qed

lemma new_Map_distinct: "distinct (map fst (new_Map es))"
  by (simp add: new_Map_keys firstSeen_distinct)

lemma new_Map_keyed:
  "(k, v) \<in> set (new_Map (map (\<lambda>i. (f i, i)) xs)) \<Longrightarrow> k = f v"
  using Map_add_entries_entries[of "[]" "map (\<lambda>i. (f i, i)) xs"]
  by (auto simp: new_Map_def)

lemma new_Map_keyed_values:
  "map (\<lambda>i. (f i, i)) (map snd (new_Map (map (\<lambda>i. (f i, i)) xs))) = new_Map (map (\<lambda>i. (f i, i)) xs)"
proof -
  have "\<forall>e \<in> set (new_Map (map (\<lambda>i. (f i, i)) xs)). (f (snd e), snd e) = e"
  proof
    fix e
    assume mem: "e \<in> set (new_Map (map (\<lambda>i. (f i, i)) xs))"
    obtain k v where e: "e = (k, v)" by (cases e)
    from mem have "k = f v" unfolding e by (rule new_Map_keyed)
    then show "(f (snd e), snd e) = e" by (simp add: e)
  qed
  then show ?thesis
    by (simp add: map_idI)
qed

lemma new_Map_fixed: "distinct (map fst es) \<Longrightarrow> new_Map es = es"
  using Map_add_entries_distinct[of "[]" es] by (simp add: new_Map_def)

lemma uniqueSources_uris: "map uri (uniqueSources gs) = firstSeen (map uri gs)"
proof -
  let ?M = "new_Map (map (\<lambda>i. (uri i, i)) gs)"
  have "map fst (map (\<lambda>i. (uri i, i)) (map snd ?M)) = map fst ?M"
    by (simp only: new_Map_keyed_values)
  then have "map uri (map snd ?M) = map fst ?M"
    by (simp add: comp_def)
  then show ?thesis
    by (simp add: uniqueSources_def Map_values_def new_Map_keys comp_def)
qed

lemma uniqueSources_idem: "uniqueSources (uniqueSources gs) = uniqueSources gs"
proof -
  let ?M = "new_Map (map (\<lambda>i. (uri i, i)) gs)"
  have "new_Map (map (\<lambda>i. (uri i, i)) (map snd ?M)) = ?M"
    by (simp only: new_Map_keyed_values new_Map_fixed[OF new_Map_distinct])
  then show ?thesis
    by (simp add: uniqueSources_def Map_values_def)
qed

lemma uniqueSources_last:
  assumes "s \<in> set (uniqueSources gs)"
  shows "find (\<lambda>t. uri t = uri s) (rev gs) = Some s"
proof -
  let ?M = "new_Map (map (\<lambda>i. (uri i, i)) gs)"
  from assms obtain k where mem: "(k, s) \<in> set ?M"
    by (auto simp: uniqueSources_def Map_values_def)
  then have k: "k = uri s" by (rule new_Map_keyed)
  from mem new_Map_distinct[of "map (\<lambda>i. (uri i, i)) gs"] have "map_of ?M k = Some s"
    by simp
  then have "map_of (rev (map (\<lambda>i. (uri i, i)) gs)) k = Some s"
    by (simp add: new_Map_def Map_add_entries_map_of)
  then have "map_of (map (\<lambda>i. (uri i, i)) (rev gs)) k = Some s"
    by (simp add: rev_map)
  then show ?thesis
    by (simp add: map_of_keyed k)
qed

section \<open>Deduplication of the grounding sources\<close>

text \<open>
  Claim C1, as stated, fails: of two citations with the same uri the deduplication keeps
  the title of the later one, where the specification's first-seen deduplication keeps
  the title of the earlier one.
\<close>

theorem uniqueSources_keeps_first_counterexample:
  "uniqueSources [\<lparr>uri = ''a'', title = ''A''\<rparr>, \<lparr>uri = ''a'', title = ''B''\<rparr>]
     = [\<lparr>uri = ''a'', title = ''B''\<rparr>]
   \<and> uniqueSources [\<lparr>uri = ''a'', title = ''A''\<rparr>, \<lparr>uri = ''a'', title = ''B''\<rparr>]
     \<noteq> dedupKeepFirst [\<lparr>uri = ''a'', title = ''A''\<rparr>, \<lparr>uri = ''a'', title = ''B''\<rparr>]"
  by (simp add: uniqueSources_def new_Map_def Map_values_def)

text \<open>
  Claim C1, amended: for every list of grounding citations, the uris of the deduplicated
  list are the distinct uris of the input in the order of their first occurrence, no two
  sources of the output share a uri, and the entry kept for a uri is the last entry of
  the input with that uri (so its title is the last-seen one).
\<close>

theorem uniqueSources_first_seen_order_last_entry:
  "map uri (uniqueSources gs) = firstSeen (map uri gs)
   \<and> distinct (map uri (uniqueSources gs))
   \<and> (\<forall>s \<in> set (uniqueSources gs). find (\<lambda>t. uri t = uri s) (rev gs) = Some s)"
proof (intro conjI ballI)
  show "map uri (uniqueSources gs) = firstSeen (map uri gs)"
    by (rule uniqueSources_uris)
  show "distinct (map uri (uniqueSources gs))"
    by (simp only: uniqueSources_uris firstSeen_distinct)
  fix s
  assume "s \<in> set (uniqueSources gs)"
  then show "find (\<lambda>t. uri t = uri s) (rev gs) = Some s"
    by (rule uniqueSources_last)
qed

theorem uniqueSources_first_seen_order_last_entry_witness:
  "\<lparr>uri = ''a'', title = ''B''\<rparr>
     \<in> set (uniqueSources
         [\<lparr>uri = ''a'', title = ''A''\<rparr>, \<lparr>uri = ''b'', title = ''X''\<rparr>, \<lparr>uri = ''a'', title = ''B''\<rparr>])
   \<and> map uri (uniqueSources
         [\<lparr>uri = ''a'', title = ''A''\<rparr>, \<lparr>uri = ''b'', title = ''X''\<rparr>, \<lparr>uri = ''a'', title = ''B''\<rparr>])
     = [''a'', ''b'']
   \<and> find (\<lambda>t. uri t = ''a'')
       (rev [\<lparr>uri = ''a'', title = ''A''\<rparr>, \<lparr>uri = ''b'', title = ''X''\<rparr>, \<lparr>uri = ''a'', title = ''B''\<rparr>])
     = Some \<lparr>uri = ''a'', title = ''B''\<rparr>"
proof -
  let ?gs = "[\<lparr>uri = ''a'', title = ''A''\<rparr>, \<lparr>uri = ''b'', title = ''X''\<rparr>, \<lparr>uri = ''a'', title = ''B''\<rparr>]"
  have mem: "\<lparr>uri = ''a'', title = ''B''\<rparr> \<in> set (uniqueSources ?gs)"
    by (simp add: uniqueSources_def new_Map_def Map_values_def)
  from uniqueSources_first_seen_order_last_entry[of ?gs]
  have order: "map uri (uniqueSources ?gs) = firstSeen (map uri ?gs)"
    and last: "\<forall>s \<in> set (uniqueSources ?gs). find (\<lambda>t. uri t = uri s) (rev ?gs) = Some s"
    by blast+
  from last mem have "find (\<lambda>t. uri t = uri \<lparr>uri = ''a'', title = ''B''\<rparr>) (rev ?gs)
      = Some \<lparr>uri = ''a'', title = ''B''\<rparr>"
    by (rule bspec)
  moreover from order have "map uri (uniqueSources ?gs) = [''a'', ''b'']"
    by simp
  ultimately show ?thesis
    using mem by simp
qed

text \<open>
  Claim C6: for every grounding-citation list the deduplication is idempotent (applied
  to its own output it returns that output unchanged), and the uris of the output are
  those of the input in the order of their first occurrence.
\<close>

theorem uniqueSources_idempotent:
  "uniqueSources (uniqueSources gs) = uniqueSources gs
   \<and> map uri (uniqueSources gs) = firstSeen (map uri gs)"
  by (simp only: uniqueSources_idem uniqueSources_uris)

section \<open>The assembled request\<close>

text \<open>
  Claim C2 does not hold of the code: \<^verbatim>\<open>userParts\<close> starts as \<^verbatim>\<open>[{ text: message }]\<close>
  whatever the message, so with an empty text and an image the new turn holds an empty
  text part before the image part. The store's own copy of the same turn, built by
  \<^verbatim>\<open>handleSendMessage\<close>, holds the image part only.
\<close>

theorem userParts_empty_text_part_sent:
  "parts (last (contents [] [] (Some \<lparr>base64 = ''QUJD'', imageMimeType = ''image/jpeg''\<rparr>)))
     = [\<lparr>text = Some [], inlineData = None\<rparr>,
        \<lparr>text = None, inlineData = Some \<lparr>mimeType = ''image/jpeg'', data = ''QUJD''\<rparr>\<rparr>]
   \<and> parts (last (messages (fst (handleSendMessage
        (initialStore\<lparr>imageToSend := Some \<lparr>base64 = ''QUJD'', imageMimeType = ''image/jpeg''\<rparr>\<rparr>)))))
     = [\<lparr>text = None, inlineData = Some \<lparr>mimeType = ''image/jpeg'', data = ''QUJD''\<rparr>\<rparr>]"
  by (simp add: contents_def userParts_def fileToGenerativePart_def
      handleSendMessage_def initialStore_def trim_def Let_def)

lemma mapPart_text:
  "text p = Some t \<Longrightarrow> t \<noteq> [] \<Longrightarrow> mapPart p = \<lparr>text = Some t, inlineData = None\<rparr>"
  by (simp add: mapPart_def truthy_def)

lemma mapPart_inlineData:
  "\<not> truthy (text p) \<Longrightarrow> inlineData p = Some d \<Longrightarrow>
   mapPart p = \<lparr>text = None, inlineData = Some d\<rparr>"
  by (simp add: mapPart_def)

lemma mapPart_neither:
  "\<not> truthy (text p) \<Longrightarrow> inlineData p = None \<Longrightarrow>
   mapPart p = \<lparr>text = None, inlineData = None\<rparr>"
  by (simp add: mapPart_def)

lemma contents_history_turn:
  assumes "k < length history"
  shows "contents history message img ! k
         = \<lparr>role = role (history ! k), parts = map mapPart (parts (history ! k))\<rparr>"
  using assms by (simp add: contents_def nth_append)

lemma contents_last:
  "last (contents history message img) = \<lparr>role = User, parts = userParts message img\<rparr>"
  by (simp add: contents_def)

lemma sendMessageToGemini_response:
  "generateContent (contents history message img) = Inr response \<Longrightarrow>
   sendMessageToGemini generateContent history message img
     = Inr (Success (responseText response)
              (uniqueSources (groundingSourcesOf (groundingChunksOf response))))"
  by (simp add: sendMessageToGemini_def tryBlock_def)

lemma sendMessageToGemini_thrown:
  "generateContent (contents history message img) = Inl e \<Longrightarrow>
   sendMessageToGemini generateContent history message img = Inr (catchBlock e)"
  by (simp add: sendMessageToGemini_def tryBlock_def)

lemma sendMessageToGemini_of_answer:
  "sendMessageToGemini generateContent history message img =
     (case generateContent (contents history message img) of
        Inl e \<Rightarrow> Inr (catchBlock e)
      | Inr response \<Rightarrow>
          Inr (Success (responseText response)
                 (uniqueSources (groundingSourcesOf (groundingChunksOf response)))))"
  by (simp add: sendMessageToGemini_response sendMessageToGemini_thrown split: sum.splits)

text \<open>
  Claim C5: the request that the exchange assembles is the history in its order, each
  message mapped to its role and its parts, each part re-expressed as a text part, or
  else as an inline-data part, or else (lacking both) as the empty object, followed by
  the new user turn, whose parts are the text part and then, when an image is given,
  the image part. The exchange hands exactly this request to the provider: its result
  is the provider's answer on this request, converted, so it depends on the provider
  through that answer alone. A part lacking both is no error: the exchange goes on to
  the provider's response. With an empty history, the text "hi" and no image the
  request is one user turn with the one text part "hi".
\<close>

theorem contents_history_then_new_turn:
  "length (contents history message img) = Suc (length history)
   \<and> (\<forall>k < length history.
        role (contents history message img ! k) = role (history ! k)
        \<and> parts (contents history message img ! k) = map mapPart (parts (history ! k)))
   \<and> (\<forall>t. text p = Some t \<and> t \<noteq> [] \<longrightarrow> mapPart p = \<lparr>text = Some t, inlineData = None\<rparr>)
   \<and> (\<forall>d. \<not> truthy (text p) \<and> inlineData p = Some d \<longrightarrow>
          mapPart p = \<lparr>text = None, inlineData = Some d\<rparr>)
   \<and> (\<not> truthy (text p) \<and> inlineData p = None \<longrightarrow>
          mapPart p = \<lparr>text = None, inlineData = None\<rparr>)
   \<and> last (contents history message img)
        = \<lparr>role = User,
           parts =
             \<lparr>text = Some message, inlineData = None\<rparr> #
             (case img of
                None \<Rightarrow> []
              | Some i \<Rightarrow>
                  [\<lparr>text = None,
                    inlineData = Some \<lparr>mimeType = imageMimeType i, data = base64 i\<rparr>\<rparr>])\<rparr>
   \<and> sendMessageToGemini generateContent history message img =
       (case generateContent (contents history message img) of
          Inl e \<Rightarrow> Inr (catchBlock e)
        | Inr response \<Rightarrow>
            Inr (Success (responseText response)
                   (uniqueSources (groundingSourcesOf (groundingChunksOf response)))))
   \<and> (\<forall>provider. provider (contents history message img)
                      = generateContent (contents history message img) \<longrightarrow>
        sendMessageToGemini provider history message img
          = sendMessageToGemini generateContent history message img)
   \<and> (\<forall>response. generateContent (contents history message img) = Inr response \<longrightarrow>
        (\<exists>t srcs. sendMessageToGemini generateContent history message img
                     = Inr (Success t srcs)))
   \<and> contents [] ''hi'' None
        = [\<lparr>role = User, parts = [\<lparr>text = Some ''hi'', inlineData = None\<rparr>]\<rparr>]"
proof (intro conjI allI impI)
  show "length (contents history message img) = Suc (length history)"
    by (simp add: contents_def)
  show "last (contents history message img)
        = \<lparr>role = User,
           parts =
             \<lparr>text = Some message, inlineData = None\<rparr> #
             (case img of
                None \<Rightarrow> []
              | Some i \<Rightarrow>
                  [\<lparr>text = None,
                    inlineData = Some \<lparr>mimeType = imageMimeType i, data = base64 i\<rparr>\<rparr>])\<rparr>"
    by (simp add: contents_last userParts_def fileToGenerativePart_def split: option.splits)
  show "sendMessageToGemini generateContent history message img =
       (case generateContent (contents history message img) of
          Inl e \<Rightarrow> Inr (catchBlock e)
        | Inr response \<Rightarrow>
            Inr (Success (responseText response)
                   (uniqueSources (groundingSourcesOf (groundingChunksOf response)))))"
    by (rule sendMessageToGemini_of_answer)
  show "contents [] ''hi'' None
        = [\<lparr>role = User, parts = [\<lparr>text = Some ''hi'', inlineData = None\<rparr>]\<rparr>]"
    by (simp add: contents_def userParts_def)
next
  fix k
  assume k: "k < length history"
  show "role (contents history message img ! k) = role (history ! k)"
    by (simp add: contents_history_turn[OF k])
  show "parts (contents history message img ! k) = map mapPart (parts (history ! k))"
    by (simp add: contents_history_turn[OF k])
next
  fix t
  assume "text p = Some t \<and> t \<noteq> []"
  then show "mapPart p = \<lparr>text = Some t, inlineData = None\<rparr>"
    by (simp add: mapPart_text)
next
  fix d
  assume "\<not> truthy (text p) \<and> inlineData p = Some d"
  then show "mapPart p = \<lparr>text = None, inlineData = Some d\<rparr>"
    by (simp add: mapPart_inlineData)
next
  assume "\<not> truthy (text p) \<and> inlineData p = None"
  then show "mapPart p = \<lparr>text = None, inlineData = None\<rparr>"
    by (simp add: mapPart_neither)
next
  fix provider
  assume same: "provider (contents history message img)
                  = generateContent (contents history message img)"
  show "sendMessageToGemini provider history message img
          = sendMessageToGemini generateContent history message img"
    by (simp only: sendMessageToGemini_of_answer[of provider]
        sendMessageToGemini_of_answer[of generateContent] same)
next
  fix response
  assume "generateContent (contents history message img) = Inr response"
  then show "\<exists>t srcs. sendMessageToGemini generateContent history message img
                     = Inr (Success t srcs)"
    by (simp add: sendMessageToGemini_response)
qed

text \<open>
  The witness has two prior turns, one of them with a part lacking both fields, and an
  image-bearing new turn. Its provider answers only the request of three turns whose
  last turn holds two parts, and throws on any other, so the result shows which request
  the exchange sent. The last conjunct is the image-only exchange.
\<close>

theorem contents_history_then_new_turn_witness:
  "role (contents
       [\<lparr>role = User, parts = [\<lparr>text = Some ''a'', inlineData = None\<rparr>], groundingSources = None\<rparr>,
        \<lparr>role = Model,
         parts = [\<lparr>text = Some ''b'', inlineData = None\<rparr>, \<lparr>text = None, inlineData = None\<rparr>],
         groundingSources = Some []\<rparr>]
       ''c'' (Some \<lparr>base64 = ''QUJD'', imageMimeType = ''image/jpeg''\<rparr>) ! 1) = Model
   \<and> parts (contents
       [\<lparr>role = User, parts = [\<lparr>text = Some ''a'', inlineData = None\<rparr>], groundingSources = None\<rparr>,
        \<lparr>role = Model,
         parts = [\<lparr>text = Some ''b'', inlineData = None\<rparr>, \<lparr>text = None, inlineData = None\<rparr>],
         groundingSources = Some []\<rparr>]
       ''c'' (Some \<lparr>base64 = ''QUJD'', imageMimeType = ''image/jpeg''\<rparr>) ! 1)
     = [\<lparr>text = Some ''b'', inlineData = None\<rparr>, \<lparr>text = None, inlineData = None\<rparr>]
   \<and> last (contents
       [\<lparr>role = User, parts = [\<lparr>text = Some ''a'', inlineData = None\<rparr>], groundingSources = None\<rparr>,
        \<lparr>role = Model,
         parts = [\<lparr>text = Some ''b'', inlineData = None\<rparr>, \<lparr>text = None, inlineData = None\<rparr>],
         groundingSources = Some []\<rparr>]
       ''c'' (Some \<lparr>base64 = ''QUJD'', imageMimeType = ''image/jpeg''\<rparr>))
     = \<lparr>role = User,
        parts = [\<lparr>text = Some ''c'', inlineData = None\<rparr>,
                 \<lparr>text = None, inlineData = Some \<lparr>mimeType = ''image/jpeg'', data = ''QUJD''\<rparr>\<rparr>]\<rparr>
   \<and> sendMessageToGemini
       (\<lambda>c. if length c = 3 \<and> length (parts (last c)) = 2
            then Inr \<lparr>responseText = Some ''ok'', candidates = None\<rparr>
            else Inl NotAnError)
       [\<lparr>role = User, parts = [\<lparr>text = Some ''a'', inlineData = None\<rparr>], groundingSources = None\<rparr>,
        \<lparr>role = Model,
         parts = [\<lparr>text = Some ''b'', inlineData = None\<rparr>, \<lparr>text = None, inlineData = None\<rparr>],
         groundingSources = Some []\<rparr>]
       ''c'' (Some \<lparr>base64 = ''QUJD'', imageMimeType = ''image/jpeg''\<rparr>)
     = Inr (Success (Some ''ok'') [])
   \<and> last (contents [] [] (Some \<lparr>base64 = ''QUJD'', imageMimeType = ''image/jpeg''\<rparr>))
     = \<lparr>role = User,
        parts = [\<lparr>text = Some [], inlineData = None\<rparr>,
                 \<lparr>text = None, inlineData = Some \<lparr>mimeType = ''image/jpeg'', data = ''QUJD''\<rparr>\<rparr>]\<rparr>"
proof -
  let ?H = "[\<lparr>role = User, parts = [\<lparr>text = Some ''a'', inlineData = None\<rparr>], groundingSources = None\<rparr>,
        \<lparr>role = Model,
         parts = [\<lparr>text = Some ''b'', inlineData = None\<rparr>, \<lparr>text = None, inlineData = None\<rparr>],
         groundingSources = Some []\<rparr>]"
  let ?I = "Some \<lparr>base64 = ''QUJD'', imageMimeType = ''image/jpeg''\<rparr>"
  let ?R = "\<lparr>responseText = Some ''ok'', candidates = None\<rparr>"
  let ?G = "\<lambda>c::Content list. if length c = 3 \<and> length (parts (last c)) = 2
              then Inr ?R else (Inl NotAnError :: thrown + GenerateContentResponse)"
  note T = contents_history_then_new_turn[of ?H "''c''" ?I _ ?G]
  from T[of "\<lparr>text = Some ''b'', inlineData = None\<rparr>"]
  have hist: "\<forall>k < length ?H.
        role (contents ?H ''c'' ?I ! k) = role (?H ! k)
        \<and> parts (contents ?H ''c'' ?I ! k) = map mapPart (parts (?H ! k))"
    and len: "length (contents ?H ''c'' ?I) = Suc (length ?H)"
    and hnew: "last (contents ?H ''c'' ?I)
        = \<lparr>role = User,
           parts =
             \<lparr>text = Some ''c'', inlineData = None\<rparr> #
             (case ?I of
                None \<Rightarrow> []
              | Some i \<Rightarrow>
                  [\<lparr>text = None,
                    inlineData = Some \<lparr>mimeType = imageMimeType i, data = base64 i\<rparr>\<rparr>])\<rparr>"
    and answer: "sendMessageToGemini ?G ?H ''c'' ?I =
       (case ?G (contents ?H ''c'' ?I) of
          Inl e \<Rightarrow> Inr (catchBlock e)
        | Inr response \<Rightarrow>
            Inr (Success (responseText response)
                   (uniqueSources (groundingSourcesOf (groundingChunksOf response)))))"
    and htext: "\<forall>t. text \<lparr>text = Some ''b'', inlineData = None\<rparr> = Some t \<and> t \<noteq> [] \<longrightarrow>
        mapPart \<lparr>text = Some ''b'', inlineData = None\<rparr> = \<lparr>text = Some t, inlineData = None\<rparr>"
    by blast+
  from T[of "\<lparr>text = None, inlineData = None\<rparr>"]
  have hnone: "\<not> truthy (text \<lparr>text = None, inlineData = None\<rparr>)
        \<and> inlineData \<lparr>text = None, inlineData = None\<rparr> = None \<longrightarrow>
          mapPart \<lparr>text = None, inlineData = None\<rparr> = \<lparr>text = None, inlineData = None\<rparr>"
    by blast
  have p1: "mapPart \<lparr>text = Some ''b'', inlineData = None\<rparr> = \<lparr>text = Some ''b'', inlineData = None\<rparr>"
    using htext by simp
  have p2: "mapPart \<lparr>text = None, inlineData = None\<rparr> = \<lparr>text = None, inlineData = None\<rparr>"
    using hnone by (simp add: truthy_def)
  have k: "1 < length ?H" by simp
  from hist k have "role (contents ?H ''c'' ?I ! 1) = role (?H ! 1)
        \<and> parts (contents ?H ''c'' ?I ! 1) = map mapPart (parts (?H ! 1))"
    by blast
  then have turn: "role (contents ?H ''c'' ?I ! 1) = Model
        \<and> parts (contents ?H ''c'' ?I ! 1)
          = [\<lparr>text = Some ''b'', inlineData = None\<rparr>, \<lparr>text = None, inlineData = None\<rparr>]"
    by (simp add: p1 p2)
  from hnew have hlast: "last (contents ?H ''c'' ?I)
     = \<lparr>role = User,
        parts = [\<lparr>text = Some ''c'', inlineData = None\<rparr>,
                 \<lparr>text = None, inlineData = Some \<lparr>mimeType = ''image/jpeg'', data = ''QUJD''\<rparr>\<rparr>]\<rparr>"
    by simp
  from len hlast have g: "?G (contents ?H ''c'' ?I) = Inr ?R"
    by simp
  have sent: "sendMessageToGemini ?G ?H ''c'' ?I = Inr (Success (Some ''ok'') [])"
    unfolding answer g
    by (simp add: groundingChunksOf_def groundingSourcesOf_def uniqueSources_def
        new_Map_def Map_values_def)
  from contents_history_then_new_turn[of "[]" "[]" ?I]
  have "last (contents [] [] ?I)
        = \<lparr>role = User,
           parts =
             \<lparr>text = Some [], inlineData = None\<rparr> #
             (case ?I of
                None \<Rightarrow> []
              | Some i \<Rightarrow>
                  [\<lparr>text = None,
                    inlineData = Some \<lparr>mimeType = imageMimeType i, data = base64 i\<rparr>\<rparr>])\<rparr>"
    by blast
  then have only: "last (contents [] [] ?I)
     = \<lparr>role = User,
        parts = [\<lparr>text = Some [], inlineData = None\<rparr>,
                 \<lparr>text = None, inlineData = Some \<lparr>mimeType = ''image/jpeg'', data = ''QUJD''\<rparr>\<rparr>]\<rparr>"
    by simp
  from turn hlast sent only show ?thesis
    by blast
qed

section \<open>The outcome of the exchange\<close>

text \<open>
  Claim C3: whatever the provider call does, the exchange never hands an exception to
  its caller: it resolves to a value. When the call throws an Error the value is
  \<^verbatim>\<open>{ error }\<close> with that error's message; when it throws anything else, \<^verbatim>\<open>{ error }\<close>
  with the fallback string; when it returns a response, \<^verbatim>\<open>{ text, sources }\<close>.
\<close>

theorem sendMessageToGemini_never_rejects:
  "(\<exists>r. sendMessageToGemini generateContent history message img = Inr r)
   \<and> sendMessageToGemini generateContent history message img =
       (case generateContent (contents history message img) of
          Inl (JsError m) \<Rightarrow> Inr (Failure m)
        | Inl NotAnError \<Rightarrow> Inr (Failure ''An unknown error occurred.'')
        | Inr response \<Rightarrow>
            Inr (Success (responseText response)
                   (uniqueSources (groundingSourcesOf (groundingChunksOf response)))))"
  by (simp add: sendMessageToGemini_def tryBlock_def catchBlock_def
      split: sum.splits thrown.splits)

lemma chunkHasWeb_not_lacking: "chunkHasWeb c \<Longrightarrow> \<not> lacksUriOrTitle c"
  by (auto simp: chunkHasWeb_def lacksUriOrTitle_def truthy_def split: option.splits)

lemma groundingSourcesOf_without_lacking:
  "groundingSourcesOf (Some (filter (\<lambda>c. \<not> lacksUriOrTitle c) cs)) = groundingSourcesOf (Some cs)"
proof -
  have "filter chunkHasWeb (filter (\<lambda>c. \<not> lacksUriOrTitle c) cs) = filter chunkHasWeb cs"
    using chunkHasWeb_not_lacking by (auto intro: filter_cong)
  then show ?thesis by (simp add: groundingSourcesOf_def)
qed

lemma chunkToSource_fields:
  "chunkHasWeb c \<Longrightarrow>
   \<exists>w. web c = Some w \<and> webUri w = Some (uri (chunkToSource c))
     \<and> webTitle w = Some (title (chunkToSource c))"
  by (auto simp: chunkHasWeb_def chunkToSource_def truthy_def split: option.splits)

lemma groundingSourcesOf_origin:
  assumes "s \<in> set (groundingSourcesOf (Some cs))"
  shows "\<exists>c \<in> set cs. \<not> lacksUriOrTitle c
     \<and> (\<exists>w. web c = Some w \<and> webUri w = Some (uri s) \<and> webTitle w = Some (title s))"
proof -
  from assms obtain c where c: "c \<in> set cs" "chunkHasWeb c" "s = chunkToSource c"
    by (auto simp: groundingSourcesOf_def)
  from chunkToSource_fields[OF c(2)] chunkHasWeb_not_lacking[OF c(2)] c(1) c(3) show ?thesis
    by blast
qed

lemma uniqueSources_subset: "set (uniqueSources gs) \<subseteq> set gs"
  using Map_add_entries_entries[of "[]" "map (\<lambda>i. (uri i, i)) gs"]
  by (auto simp: uniqueSources_def Map_values_def new_Map_def)

text \<open>
  Claim C4: when the provider returns a list of grounding citations, the sources of the
  exchange result are those computed from the list without the citations that lack a
  uri or a title, and every source of the result has the uri and the title of a
  citation of the list that lacks neither. The witness is the specification's example:
  the citations \<^verbatim>\<open>[{uri:"a",title:"A"},{title:"B"}]\<close> yield the one source
  \<^verbatim>\<open>{uri:"a",title:"A"}\<close>.
\<close>

theorem sources_exclude_lacking_citations:
  assumes "generateContent (contents history message img) = Inr response"
    and "groundingChunksOf response = Some cs"
  shows "\<exists>srcs. sendMessageToGemini generateContent history message img
                  = Inr (Success (responseText response) srcs)
     \<and> srcs = uniqueSources (groundingSourcesOf (Some (filter (\<lambda>c. \<not> lacksUriOrTitle c) cs)))
     \<and> (\<forall>s \<in> set srcs. \<exists>c \<in> set cs. \<not> lacksUriOrTitle c
          \<and> (\<exists>w. web c = Some w \<and> webUri w = Some (uri s) \<and> webTitle w = Some (title s)))"
proof -
  let ?srcs = "uniqueSources (groundingSourcesOf (Some cs))"
  have "sendMessageToGemini generateContent history message img
          = Inr (Success (responseText response) ?srcs)"
    using assms by (simp add: sendMessageToGemini_response)
  moreover have "?srcs = uniqueSources (groundingSourcesOf (Some (filter (\<lambda>c. \<not> lacksUriOrTitle c) cs)))"
    by (simp only: groundingSourcesOf_without_lacking)
  moreover have "\<forall>s \<in> set ?srcs. \<exists>c \<in> set cs. \<not> lacksUriOrTitle c
          \<and> (\<exists>w. web c = Some w \<and> webUri w = Some (uri s) \<and> webTitle w = Some (title s))"
    using uniqueSources_subset[of "groundingSourcesOf (Some cs)"] groundingSourcesOf_origin[of _ cs]
    by blast
  ultimately show ?thesis by blast
qed

theorem sources_exclude_lacking_citations_witness:
  "sendMessageToGemini
     (\<lambda>c. Inr \<lparr>responseText = Some ''ok'',
               candidates = Some [\<lparr>groundingMetadata = Some \<lparr>groundingChunks = Some
                 [\<lparr>web = Some \<lparr>webUri = Some ''a'', webTitle = Some ''A''\<rparr>\<rparr>,
                  \<lparr>web = Some \<lparr>webUri = None, webTitle = Some ''B''\<rparr>\<rparr>]\<rparr>\<rparr>]\<rparr>)
     [] ''hi'' None
   = Inr (Success (Some ''ok'') [\<lparr>uri = ''a'', title = ''A''\<rparr>])"
proof -
  let ?cs = "[\<lparr>web = Some \<lparr>webUri = Some ''a'', webTitle = Some ''A''\<rparr>\<rparr>,
              \<lparr>web = Some \<lparr>webUri = None, webTitle = Some ''B''\<rparr>\<rparr>]"
  let ?R = "\<lparr>responseText = Some ''ok'',
             candidates = Some [\<lparr>groundingMetadata = Some \<lparr>groundingChunks = Some ?cs\<rparr>\<rparr>]\<rparr>"
  let ?G = "\<lambda>c::Content list. Inr ?R :: thrown + GenerateContentResponse"
  have h1: "?G (contents [] ''hi'' None) = Inr ?R" by simp
  have h2: "groundingChunksOf ?R = Some ?cs" by (simp add: groundingChunksOf_def)
  from sources_exclude_lacking_citations[of ?G "[]" "''hi''" None ?R ?cs, OF h1 h2]
  obtain srcs where r: "sendMessageToGemini ?G [] ''hi'' None = Inr (Success (responseText ?R) srcs)"
    and s: "srcs = uniqueSources (groundingSourcesOf (Some (filter (\<lambda>c. \<not> lacksUriOrTitle c) ?cs)))"
    by blast
  from s have "srcs = [\<lparr>uri = ''a'', title = ''A''\<rparr>]"
    by (simp add: lacksUriOrTitle_def groundingSourcesOf_def chunkHasWeb_def chunkToSource_def
        truthy_def uniqueSources_def new_Map_def Map_values_def)
  with r show ?thesis by simp
qed

section \<open>Submitting a message\<close>

lemma trim_Nil: "trim [] = []"
  by (simp add: trim_def)

lemma trim_empty_iff: "trim s = [] \<longleftrightarrow> (\<forall>c \<in> set s. isWhiteSpace c)"
proof
  assume "\<forall>c \<in> set s. isWhiteSpace c"
  then have d: "dropWhile isWhiteSpace s = []" by simp
  show "trim s = []" unfolding trim_def d by simp
next
  assume "trim s = []"
  then have all: "\<forall>c \<in> set (dropWhile isWhiteSpace s). isWhiteSpace c"
    by (simp add: trim_def dropWhile_eq_Nil_conv)
  have "dropWhile isWhiteSpace s = []"
  proof (rule ccontr)
    assume ne: "dropWhile isWhiteSpace s \<noteq> []"
    then have "\<not> isWhiteSpace (hd (dropWhile isWhiteSpace s))"
      by (rule hd_dropWhile)
    moreover from ne have "hd (dropWhile isWhiteSpace s) \<in> set (dropWhile isWhiteSpace s)"
      by (rule hd_in_set)
    ultimately show False using all by blast
  qed
  then show "\<forall>c \<in> set s. isWhiteSpace c"
    by (simp add: dropWhile_eq_Nil_conv)
qed

lemma handleSendMessage_guard:
  "trim (input st) = [] \<Longrightarrow> imageToSend st = None \<Longrightarrow> handleSendMessage st = (st, None)"
  by (simp add: handleSendMessage_def)

lemma handleSendMessage_issued:
  assumes "handleSendMessage st = (st', Some call)"
  shows "call = \<lparr>callHistory = messages st, callMessage = trim (input st),
                 callImage = imageToSend st\<rparr>"
    and "isLoading st'"
    and "messages st' = messages st @
           [\<lparr>role = User,
             parts =
               (if trim (input st) \<noteq> [] then [\<lparr>text = Some (trim (input st)), inlineData = None\<rparr>]
                else []) @
               (case imageToSend st of
                  None \<Rightarrow> []
                | Some i \<Rightarrow>
                    [\<lparr>text = None,
                      inlineData = Some \<lparr>mimeType = imageMimeType i, data = base64 i\<rparr>\<rparr>]),
             groundingSources = None\<rparr>]"
  using assms by (auto simp: handleSendMessage_def Let_def split: if_splits)

lemma handleSendMessage_none:
  "handleSendMessage st = (st', None) \<Longrightarrow> st' = st"
  by (auto simp: handleSendMessage_def Let_def split: if_splits)

lemma submit_noop:
  "trim (input (store app)) = [] \<Longrightarrow> imageToSend (store app) = None \<Longrightarrow> submit app = app"
  by (simp add: submit_def handleSendMessage_guard)

text \<open>
  Claim C7: in every state of the store whose pending text is empty and which has no
  pending image, submitting is a no-op: \<^verbatim>\<open>handleSendMessage\<close> returns at its guard with the
  store as it was (the same messages, the same loading flag) and issues no call, and so
  do the Enter key and the send button.
\<close>

theorem submit_empty_is_noop:
  assumes "input (store app) = []" and "imageToSend (store app) = None"
  shows "handleSendMessage (store app) = (store app, None)
     \<and> uiStep generateContent app EnterKey = app
     \<and> uiStep generateContent app SendClick = app"
proof -
  from assms(1) have t: "trim (input (store app)) = []" by (simp add: trim_Nil)
  from t assms(2) have "handleSendMessage (store app) = (store app, None)"
    by (rule handleSendMessage_guard)
  moreover from t assms(2) have "submit app = app" by (rule submit_noop)
  ultimately show ?thesis by (simp add: uiStep_def)
qed

theorem submit_empty_is_noop_witness:
  "input (store initialApp) = [] \<and> imageToSend (store initialApp) = None
   \<and> \<not> isLoading (store initialApp)
   \<and> handleSendMessage (store initialApp) = (store initialApp, None)
   \<and> uiStep (\<lambda>c. Inl NotAnError) initialApp EnterKey = initialApp
   \<and> uiStep (\<lambda>c. Inl NotAnError) initialApp SendClick = initialApp"
proof -
  have h1: "input (store initialApp) = []" by (simp add: initialApp_def initialStore_def)
  have h2: "imageToSend (store initialApp) = None" by (simp add: initialApp_def initialStore_def)
  have h3: "\<not> isLoading (store initialApp)" by (simp add: initialApp_def initialStore_def)
  from submit_empty_is_noop[of initialApp "\<lambda>c. Inl NotAnError", OF h1 h2] h1 h2 h3
  show ?thesis by blast
qed

lemma text_parts_of_user_message:
  "List.map_filter text
     ((if t \<noteq> [] then [\<lparr>text = Some t, inlineData = None\<rparr>] else []) @
      (case i of None \<Rightarrow> [] | Some j \<Rightarrow> [\<lparr>text = None, inlineData = Some (f j)\<rparr>]))
   = (if t = [] then [] else [t])"
  by (simp add: List.map_filter_def split: option.splits)

text \<open>
  Claim C10: the submission acts on the trimmed input. When the input is white space
  only and no image is pending, it is a no-op. When it goes through, the text forwarded
  to the exchange is the trimmed input, the user message is appended to the messages,
  and the text parts of that message are the trimmed input alone (none when the trimmed
  input is empty).
\<close>

theorem submit_acts_on_trimmed_input:
  "((\<forall>c \<in> set (input st). isWhiteSpace c) \<and> imageToSend st = None \<longrightarrow>
      handleSendMessage st = (st, None))
   \<and> (\<forall>st' call. handleSendMessage st = (st', Some call) \<longrightarrow>
        callMessage call = trim (input st)
        \<and> butlast (messages st') = messages st
        \<and> messages st' \<noteq> []
        \<and> List.map_filter text (parts (last (messages st')))
            = (if trim (input st) = [] then [] else [trim (input st)]))"
proof (intro conjI allI impI)
  assume "(\<forall>c \<in> set (input st). isWhiteSpace c) \<and> imageToSend st = None"
  then have "trim (input st) = []" "imageToSend st = None"
    by (simp_all add: trim_empty_iff)
  then show "handleSendMessage st = (st, None)"
    by (rule handleSendMessage_guard)
next
  fix st' call
  assume h: "handleSendMessage st = (st', Some call)"
  note m = handleSendMessage_issued(3)[OF h]
  show "callMessage call = trim (input st)"
    by (simp add: handleSendMessage_issued(1)[OF h])
  show "butlast (messages st') = messages st"
    by (simp add: m)
  show "messages st' \<noteq> []"
    by (simp add: m)
  show "List.map_filter text (parts (last (messages st')))
            = (if trim (input st) = [] then [] else [trim (input st)])"
    unfolding m by (simp add: text_parts_of_user_message)
qed

theorem submit_acts_on_trimmed_input_witness:
  "handleSendMessage (initialStore\<lparr>input := ''  hi ''\<rparr>)
     = (\<lparr>messages = [\<lparr>role = User, parts = [\<lparr>text = Some ''hi'', inlineData = None\<rparr>],
                      groundingSources = None\<rparr>],
         input = [], isLoading = True, error = None, isCameraOpen = False,
         imageToSend = None\<rparr>,
        Some \<lparr>callHistory = [], callMessage = ''hi'', callImage = None\<rparr>)
   \<and> callMessage \<lparr>callHistory = [], callMessage = ''hi'', callImage = None\<rparr> = trim ''  hi ''
   \<and> trim ''  hi '' = ''hi''
   \<and> handleSendMessage (initialStore\<lparr>input := ''   ''\<rparr>) = (initialStore\<lparr>input := ''   ''\<rparr>, None)"
proof -
  let ?st = "initialStore\<lparr>input := ''  hi ''\<rparr>"
  let ?st' = "\<lparr>messages = [\<lparr>role = User, parts = [\<lparr>text = Some ''hi'', inlineData = None\<rparr>],
                      groundingSources = None\<rparr>],
         input = [], isLoading = True, error = None, isCameraOpen = False,
         imageToSend = None\<rparr>"
  let ?call = "\<lparr>callHistory = [], callMessage = ''hi'', callImage = None\<rparr>"
  let ?blank = "initialStore\<lparr>input := ''   ''\<rparr>"
  have t: "trim ''  hi '' = ''hi''"
    by (simp add: trim_def isWhiteSpace_def)
  have e: "handleSendMessage ?st = (?st', Some ?call)"
    by (simp add: handleSendMessage_def initialStore_def t Let_def)
  from submit_acts_on_trimmed_input[of ?st] e
  have "callMessage ?call = trim (input ?st)"
    by blast
  then have c: "callMessage ?call = trim ''  hi ''"
    by simp
  have ws: "(\<forall>c \<in> set (input ?blank). isWhiteSpace c) \<and> imageToSend ?blank = None"
    by (simp add: initialStore_def isWhiteSpace_def)
  from submit_acts_on_trimmed_input[of ?blank] ws
  have "handleSendMessage ?blank = (?blank, None)"
    by blast
  with e c t show ?thesis
    by blast
qed

section \<open>One exchange at a time\<close>

lemma sendMessageToGemini_resolves:
  "\<exists>r. sendMessageToGemini generateContent history message img = Inr r"
  by (simp add: sendMessageToGemini_def split: sum.splits)

lemma handleSendMessageResumed_not_loading:
  "\<not> isLoading (handleSendMessageResumed r st)"
  by (simp add: handleSendMessageResumed_def Let_def)

lemma submit_idle:
  assumes "inFlight app = []"
  shows "(inFlight (submit app) = [] \<and> store (submit app) = store app)
         \<or> (length (inFlight (submit app)) = 1 \<and> isLoading (store (submit app)))"
proof (cases "handleSendMessage (store app)")
  case (Pair st' call)
  show ?thesis
  proof (cases call)
    case None
    with Pair have "st' = store app" by (simp add: handleSendMessage_none)
    with Pair None assms show ?thesis by (simp add: submit_def)
  next
    case (Some c)
    with Pair have "isLoading st'" by (simp add: handleSendMessage_issued(2))
    with Pair Some assms show ?thesis by (simp add: submit_def)
  qed
qed

lemma oneExchange_step:
  assumes "oneExchange app"
  shows "oneExchange (uiStep generateContent app ev)"
proof (cases ev)
  case (Change v)
  with assms show ?thesis by (simp add: uiStep_def oneExchange_def)
next
  case EnterKey
  show ?thesis
  proof (cases "isLoading (store app)")
    case True
    with assms EnterKey show ?thesis by (simp add: uiStep_def)
  next
    case False
    with assms have idle: "inFlight app = []" by (simp add: oneExchange_def)
    from submit_idle[OF idle] False have "oneExchange (submit app)"
      by (auto simp: oneExchange_def)
    with False EnterKey show ?thesis by (simp add: uiStep_def)
  qed
next
  case SendClick
  show ?thesis
  proof (cases "sendDisabled (store app)")
    case True
    with assms SendClick show ?thesis by (simp add: uiStep_def)
  next
    case False
    then have nl: "\<not> isLoading (store app)" by (simp add: sendDisabled_def)
    with assms have idle: "inFlight app = []" by (simp add: oneExchange_def)
    from submit_idle[OF idle] nl have "oneExchange (submit app)"
      by (auto simp: oneExchange_def)
    with False SendClick show ?thesis by (simp add: uiStep_def)
  qed
next
  case CameraClick
  with assms show ?thesis by (simp add: uiStep_def oneExchange_def)
next
  case RemoveImageClick
  with assms show ?thesis by (simp add: uiStep_def oneExchange_def)
next
  case (PhotoCaptured i)
  with assms show ?thesis by (simp add: uiStep_def oneExchange_def handlePhotoCapture_def)
next
  case CameraClosed
  with assms show ?thesis by (simp add: uiStep_def oneExchange_def onClose_def)
next
  case ExchangeSettled
  show ?thesis
  proof (cases "inFlight app")
    case Nil
    with assms ExchangeSettled show ?thesis by (simp add: uiStep_def)
  next
    case (Cons c rest)
    with assms have rest: "rest = []" by (simp add: oneExchange_def)
    obtain r where "sendMessageToGemini generateContent (callHistory c) (callMessage c) (callImage c) = Inr r"
      using sendMessageToGemini_resolves by blast
    with Cons rest ExchangeSettled show ?thesis
      by (simp add: uiStep_def oneExchange_def handleSendMessageResumed_not_loading)
  qed
qed

lemma reachable_oneExchange:
  "reachable generateContent app \<Longrightarrow> oneExchange app"
proof (induction rule: reachable.induct)
  case reachable_initial
  show ?case by (simp add: oneExchange_def initialApp_def initialStore_def)
next
  case (reachable_step app ev)
  then show ?case by (simp add: oneExchange_step)
qed

text \<open>
  Claim C9: in every reachable state at most one exchange is in flight, the store is
  loading (awaiting the response) exactly while one is, and while it is loading a
  submission by the Enter key or by the send button changes nothing: no message is
  appended and no call is issued.
\<close>

theorem one_exchange_in_flight:
  assumes "reachable generateContent app"
  shows "length (inFlight app) \<le> 1
     \<and> (isLoading (store app) \<longleftrightarrow> inFlight app \<noteq> [])
     \<and> (isLoading (store app) \<longrightarrow>
          uiStep generateContent app EnterKey = app
          \<and> uiStep generateContent app SendClick = app)"
proof -
  from assms have "oneExchange app" by (rule reachable_oneExchange)
  then show ?thesis
    by (simp add: oneExchange_def uiStep_def sendDisabled_def)
qed

theorem one_exchange_in_flight_witness:
  "reachable (\<lambda>c. Inl NotAnError)
     (uiStep (\<lambda>c. Inl NotAnError)
        (uiStep (\<lambda>c. Inl NotAnError)
           (uiStep (\<lambda>c. Inl NotAnError)
              (uiStep (\<lambda>c. Inl NotAnError) initialApp (Change ''hi''))
              EnterKey)
           CameraClick)
        (PhotoCaptured \<lparr>base64 = ''QUJD'', imageMimeType = ''image/jpeg''\<rparr>))
   \<and> uiStep (\<lambda>c. Inl NotAnError)
        (uiStep (\<lambda>c. Inl NotAnError)
           (uiStep (\<lambda>c. Inl NotAnError)
              (uiStep (\<lambda>c. Inl NotAnError) initialApp (Change ''hi''))
              EnterKey)
           CameraClick)
        (PhotoCaptured \<lparr>base64 = ''QUJD'', imageMimeType = ''image/jpeg''\<rparr>)
     = \<lparr>store =
          \<lparr>messages = [\<lparr>role = User, parts = [\<lparr>text = Some ''hi'', inlineData = None\<rparr>],
                         groundingSources = None\<rparr>],
           input = [], isLoading = True, error = None, isCameraOpen = False,
           imageToSend = Some \<lparr>base64 = ''QUJD'', imageMimeType = ''image/jpeg''\<rparr>\<rparr>,
        inFlight = [\<lparr>callHistory = [], callMessage = ''hi'', callImage = None\<rparr>]\<rparr>
   \<and> uiStep (\<lambda>c. Inl NotAnError)
        \<lparr>store =
          \<lparr>messages = [\<lparr>role = User, parts = [\<lparr>text = Some ''hi'', inlineData = None\<rparr>],
                         groundingSources = None\<rparr>],
           input = [], isLoading = True, error = None, isCameraOpen = False,
           imageToSend = Some \<lparr>base64 = ''QUJD'', imageMimeType = ''image/jpeg''\<rparr>\<rparr>,
        inFlight = [\<lparr>callHistory = [], callMessage = ''hi'', callImage = None\<rparr>]\<rparr>
        SendClick
     = \<lparr>store =
          \<lparr>messages = [\<lparr>role = User, parts = [\<lparr>text = Some ''hi'', inlineData = None\<rparr>],
                         groundingSources = None\<rparr>],
           input = [], isLoading = True, error = None, isCameraOpen = False,
           imageToSend = Some \<lparr>base64 = ''QUJD'', imageMimeType = ''image/jpeg''\<rparr>\<rparr>,
        inFlight = [\<lparr>callHistory = [], callMessage = ''hi'', callImage = None\<rparr>]\<rparr>"
proof -
  let ?G = "\<lambda>c::Content list. Inl NotAnError :: thrown + GenerateContentResponse"
  let ?I = "\<lparr>base64 = ''QUJD'', imageMimeType = ''image/jpeg''\<rparr>"
  let ?app = "uiStep ?G (uiStep ?G (uiStep ?G (uiStep ?G initialApp (Change ''hi'')) EnterKey)
                CameraClick) (PhotoCaptured ?I)"
  let ?state = "\<lparr>store =
          \<lparr>messages = [\<lparr>role = User, parts = [\<lparr>text = Some ''hi'', inlineData = None\<rparr>],
                         groundingSources = None\<rparr>],
           input = [], isLoading = True, error = None, isCameraOpen = False,
           imageToSend = Some ?I\<rparr>,
        inFlight = [\<lparr>callHistory = [], callMessage = ''hi'', callImage = None\<rparr>]\<rparr>"
  have r: "reachable ?G ?app"
    by (intro reachable_step reachable_initial)
  have t: "trim ''hi'' = ''hi''"
    by (simp add: trim_def isWhiteSpace_def)
  have s1: "uiStep ?G initialApp (Change ''hi'')
      = \<lparr>store = initialStore\<lparr>input := ''hi''\<rparr>, inFlight = []\<rparr>"
    by (simp add: uiStep_def initialApp_def initialStore_def)
  have s2: "uiStep ?G \<lparr>store = initialStore\<lparr>input := ''hi''\<rparr>, inFlight = []\<rparr> EnterKey
      = \<lparr>store =
          \<lparr>messages = [\<lparr>role = User, parts = [\<lparr>text = Some ''hi'', inlineData = None\<rparr>],
                         groundingSources = None\<rparr>],
           input = [], isLoading = True, error = None, isCameraOpen = False,
           imageToSend = None\<rparr>,
        inFlight = [\<lparr>callHistory = [], callMessage = ''hi'', callImage = None\<rparr>]\<rparr>"
    by (simp add: uiStep_def submit_def handleSendMessage_def initialStore_def t Let_def)
  have e: "?app = ?state"
    unfolding s1 s2 by (simp add: uiStep_def handlePhotoCapture_def)
  from one_exchange_in_flight[OF r]
  have "isLoading (store ?app) \<longrightarrow> uiStep ?G ?app SendClick = ?app"
    by blast
  then have "uiStep ?G ?state SendClick = ?state"
    unfolding e by simp
  with r e show ?thesis
    by blast
qed

text \<open>
  The guard against a second submission is that of the controls: \<^verbatim>\<open>handleSendMessage\<close>
  itself does not read \<^verbatim>\<open>isLoading\<close>.
\<close>

lemma handleSendMessage_reads_no_loading_flag:
  "snd (handleSendMessage
     \<lparr>messages = [], input = ''hi'', isLoading = True, error = None, isCameraOpen = False,
      imageToSend = None\<rparr>)
   = Some \<lparr>callHistory = [], callMessage = ''hi'', callImage = None\<rparr>"
  by (simp add: handleSendMessage_def trim_def isWhiteSpace_def Let_def)

section \<open>Releasing the camera\<close>

text \<open>
  Claim C8 does not hold of the code. After the camera has started, the back button
  closes the capture UI and the stream stays live: \<^verbatim>\<open>onClose\<close> is the chat's
  \<^verbatim>\<open>setIsCameraOpen(false)\<close> and nothing calls \<^verbatim>\<open>stopCamera\<close>. The capture path does
  stop the stream before it closes the UI.
\<close>

theorem back_button_leaves_stream_live:
  "isCameraOpen (chat (startCamera (Inr 0) openedCapture))
   \<and> liveStreams (startCamera (Inr 0) openedCapture) = [0]
   \<and> \<not> isCameraOpen (chat (backButton (startCamera (Inr 0) openedCapture)))
   \<and> liveStreams (backButton (startCamera (Inr 0) openedCapture)) = [0]
   \<and> \<not> isCameraOpen (chat (capturePhoto True ''QUJD'' (startCamera (Inr 0) openedCapture)))
   \<and> liveStreams (capturePhoto True ''QUJD'' (startCamera (Inr 0) openedCapture)) = []"
  by (simp add: startCamera_def openedCapture_def backButton_def capturePhoto_def
      stopCamera_def onClose_def handlePhotoCapture_def initialStore_def Let_def)

end
